theory Spec2Isabelle
  imports Complex_Main
begin

section \<open>Data model\<close>

text \<open>
  The development embeds the host-authoritative game of \<^verbatim>\<open>src/routes/+page.svelte\<close>
  and the connection store \<^verbatim>\<open>$lib/connectionStore.js\<close> it uses.

  JavaScript numbers are modelled exactly: health as a rational (the drain per tick is
  \<^verbatim>\<open>HEALTH_DRAIN_RATE / (1000 / 100)\<close>, one tenth; the rounding of doubles is left out),
  timers, scores and identifiers as integers. Peer identities are strings. Every callback
  runs to completion before the next one starts, as on the single thread of the browser.
\<close>

type_synonym peer_id = string

text \<open>A target: \<^verbatim>\<open>{ id, x, y, timer, maxTimer }\<close>.\<close>

record node =
  node_id :: int
  node_x :: rat
  node_y :: rat
  timer :: int
  maxTimer :: int

text \<open>The \<^verbatim>\<open>state\<close> object carried by a \<^verbatim>\<open>gameStateUpdate\<close> message.\<close>

record snapshot =
  st_health :: rat
  st_score :: int
  st_nodes :: "node list"
  st_running :: bool
  st_gameOver :: bool

text \<open>
  The messages of the wire protocol, by their \<^verbatim>\<open>type\<close> field. A \<^verbatim>\<open>playerAction\<close> carries the
  name of the action and the node identifier; \<^verbatim>\<open>gameOver\<close> carries \<^verbatim>\<open>finalScore\<close>.
\<close>

datatype msg =
    GameStateUpdate snapshot
  | PlayerAction string int
  | GameOver int
  | Welcome string peer_id
  | PeerDisconnect peer_id
  | UnknownMsg string

text \<open>
  A PeerJS data connection as far as the code reads it: its \<^verbatim>\<open>open\<close> flag, and whether a
  call of its \<^verbatim>\<open>send\<close> throws.
\<close>

record conn =
  conn_open :: bool
  send_throws :: bool

text \<open>
  The value of the \<^verbatim>\<open>connections\<close> store is either an empty object literal of its own
  (the initial value, and the one set when the peer closes or is destroyed) or the very
  object \<^verbatim>\<open>currentConnections\<close>, which \<^verbatim>\<open>connections.set(currentConnections)\<close> puts there.
\<close>

datatype connections_ref = EmptyObject | CurrentConnections

text \<open>
  The state of the store module and of the page component together. \<^verbatim>\<open>sent\<close> records every
  call of \<^verbatim>\<open>send\<close> on a peer's connection that returned, in order; \<^verbatim>\<open>gameHandlers\<close> says
  whether the page has installed \<^verbatim>\<open>window.handleGameData\<close> and
  \<^verbatim>\<open>window.handleGameDisconnect\<close>. An interval timer is its being armed; the spawn timeout
  is the delay it was armed with.
\<close>

record world =
  isHost :: bool
  connections :: connections_ref
  currentConnections :: "(peer_id \<times> conn) list"
  hostConnection :: "peer_id option"
  connectionStatus :: string
  connectedPeers :: "peer_id list"
  connectionError :: string
  sent :: "(peer_id \<times> msg) list"
  gameHandlers :: bool
  gameRunning :: bool
  pulseHealth :: rat
  score :: int
  nodes :: "node list"
  gameOver :: bool
  gameLoopInterval :: bool
  nodeSpawnInterval :: "int option"
  scoreInterval :: bool
  nextNodeId :: int

section \<open>Game configuration\<close>

definition MAX_HEALTH :: rat where "MAX_HEALTH = 100"
definition HEALTH_DRAIN_RATE :: rat where "HEALTH_DRAIN_RATE = 1"
definition NODE_SPAWN_INTERVAL_START :: int where "NODE_SPAWN_INTERVAL_START = 3000"
definition NODE_SPAWN_INTERVAL_MIN :: int where "NODE_SPAWN_INTERVAL_MIN = 800"
definition NODE_TIMER_DURATION :: int where "NODE_TIMER_DURATION = 5000"
definition HEALTH_GAIN_PER_CLICK :: rat where "HEALTH_GAIN_PER_CLICK = 5"
definition HEALTH_LOSS_PER_MISS :: rat where "HEALTH_LOSS_PER_MISS = 15"
section \<open>Errors\<close>

text \<open>
  A call either returns or raises. A handler that raises leaves the assignments it has made
  so far, so the outcome of a call is the state it returns with (\<open>Inr\<close>) or the error together
  with the state at the raise (\<open>Inl\<close>).
\<close>

datatype js_error = ReferenceError string

type_synonym outcome = "(js_error \<times> world) + world"

text \<open>The state a call leaves, whether it returned or raised; and whether it raised.\<close>

definition after :: "outcome \<Rightarrow> world" where
  "after r = (case r of Inl (e, w) \<Rightarrow> w | Inr w \<Rightarrow> w)"

definition raises :: "outcome \<Rightarrow> js_error option" where
  "raises r = (case r of Inl (e, w) \<Rightarrow> Some e | Inr w \<Rightarrow> None)"

section \<open>The connection store\<close>

text \<open>
  The store module imports only \<^verbatim>\<open>writable\<close> from \<^verbatim>\<open>svelte/store\<close>; its only import of \<^verbatim>\<open>get\<close>
  is inside a comment at the end of the file, and the module declares no \<^verbatim>\<open>get\<close> of its own.
  The identifier is unbound, so evaluating a call \<^verbatim>\<open>get(store)\<close> raises a \<^verbatim>\<open>ReferenceError\<close>,
  whatever the store holds.
\<close>

definition get :: "'a \<Rightarrow> js_error + 'a" where
  "get store = Inl (ReferenceError ''get'')"

text \<open>\<^verbatim>\<open>stopGameTimers\<close> of the page: clears the three timers.\<close>

definition stopGameTimers :: "world \<Rightarrow> world" where
  "stopGameTimers w =
     w\<lparr>gameLoopInterval := False, scoreInterval := False, nodeSpawnInterval := None\<rparr>"

text \<open>\<^verbatim>\<open>delete currentConnections[peerId]\<close>.\<close>

definition delete_conn :: "peer_id \<Rightarrow> (peer_id \<times> conn) list \<Rightarrow> (peer_id \<times> conn) list" where
  "delete_conn p cs = filter (\<lambda>e. fst e \<noteq> p) cs"

text \<open>
  \<^verbatim>\<open>broadcastData\<close>, its \<^verbatim>\<open>for ... in\<close> loop, \<^verbatim>\<open>handleDisconnect\<close> of the store and
  \<^verbatim>\<open>window.handleGameDisconnect\<close> of the page call one another: a \<^verbatim>\<open>send\<close> that throws is
  caught and handled by \<^verbatim>\<open>handleDisconnect\<close>, and on the host the page answers a disconnect
  by broadcasting \<^verbatim>\<open>peerDisconnect\<close>. An error raised inside the \<^verbatim>\<open>catch\<close> block, or anywhere
  outside the \<^verbatim>\<open>try\<close>, leaves the function.

  The loop visits the keys the object had when the loop started, in order; a key deleted
  before its turn is skipped, as \<^verbatim>\<open>for ... in\<close> does.
\<close>

function broadcastData :: "msg \<Rightarrow> world \<Rightarrow> outcome"
  and broadcastLoop :: "msg \<Rightarrow> peer_id list \<Rightarrow> world \<Rightarrow> outcome"
  and handleDisconnect :: "peer_id \<Rightarrow> world \<Rightarrow> outcome"
  and handleGameDisconnect :: "peer_id \<Rightarrow> world \<Rightarrow> outcome"
where
  "broadcastData d w =
     (case get (isHost w) of
        Inl e \<Rightarrow> Inl (e, w)
      | Inr host \<Rightarrow>
          if \<not> host then Inr w
          else
            (case get (connections w) of
               Inl e \<Rightarrow> Inl (e, w)
             | Inr currentConns \<Rightarrow>
                 (case currentConns of
                    EmptyObject \<Rightarrow> Inr w
                  | CurrentConnections \<Rightarrow>
                      broadcastLoop d (map fst (currentConnections w)) w)))"
| "broadcastLoop d [] w = Inr w"
| "broadcastLoop d (p # ps) w =
     (case map_of (currentConnections w) p of
        None \<Rightarrow> broadcastLoop d ps w
      | Some c \<Rightarrow>
          if \<not> conn_open c then broadcastLoop d ps w
          else if send_throws c then
            (case handleDisconnect p w of
               Inl e \<Rightarrow> Inl e
             | Inr w' \<Rightarrow> broadcastLoop d ps w')
          else broadcastLoop d ps (w\<lparr>sent := sent w @ [(p, d)]\<rparr>))"
| "handleDisconnect p w =
     (case get (isHost w) of
        Inl e \<Rightarrow> Inl (e, w)
      | Inr host \<Rightarrow>
          if host then
            (if gameHandlers w then
               handleGameDisconnect p
                 (w\<lparr>currentConnections := delete_conn p (currentConnections w),
                    connections := CurrentConnections,
                    connectedPeers := map fst (delete_conn p (currentConnections w))\<rparr>)
             else
               Inr (w\<lparr>currentConnections := delete_conn p (currentConnections w),
                      connections := CurrentConnections,
                      connectedPeers := map fst (delete_conn p (currentConnections w))\<rparr>))
          else
            (if gameHandlers w then
               handleGameDisconnect p
                 (w\<lparr>hostConnection := None,
                    connectionStatus := ''disconnected'',
                    connectionError := ''Disconnected from host.''\<rparr>)
             else
               Inr (w\<lparr>hostConnection := None,
                      connectionStatus := ''disconnected'',
                      connectionError := ''Disconnected from host.''\<rparr>)))"
| "handleGameDisconnect p w =
     (if \<not> isHost w \<and> hostConnection w = None then
        Inr (stopGameTimers
               (w\<lparr>gameOver := True, gameRunning := False,
                  connectionError := ''Lost connection to the host.''\<rparr>))
      else if isHost w then broadcastData (PeerDisconnect p) w
      else Inr w)"
  by pat_completeness auto

section \<open>The page: host-side game logic\<close>

text \<open>
  The page reads the stores through Svelte's \<^verbatim>\<open>$store\<close> subscriptions, not through \<^verbatim>\<open>get\<close>.
  \<^verbatim>\<open>broadcastGameState\<close>: the host hands a snapshot of the five state variables to
  \<^verbatim>\<open>broadcastData\<close>.
\<close>

definition current_snapshot :: "world \<Rightarrow> snapshot" where
  "current_snapshot w =
     \<lparr>st_health = pulseHealth w, st_score = score w, st_nodes = nodes w,
      st_running = gameRunning w, st_gameOver = gameOver w\<rparr>"

definition broadcastGameState :: "world \<Rightarrow> outcome" where
  "broadcastGameState w =
     (if \<not> isHost w then Inr w else broadcastData (GameStateUpdate (current_snapshot w)) w)"

text \<open>
  \<^verbatim>\<open>broadcastGameOver\<close>: stops the timers, then hands \<^verbatim>\<open>gameOver\<close> with the score to
  \<^verbatim>\<open>broadcastData\<close>.
\<close>

definition broadcastGameOver :: "world \<Rightarrow> outcome" where
  "broadcastGameOver w =
     (if \<not> isHost w then Inr w
      else broadcastData (GameOver (score (stopGameTimers w))) (stopGameTimers w))"

text \<open>
  \<^verbatim>\<open>scheduleNextSpawn\<close>, local to \<^verbatim>\<open>startGameTimers\<close>: arms the spawn timeout with
  \<^verbatim>\<open>currentInterval\<close>.
\<close>

definition currentInterval :: "int \<Rightarrow> int" where
  "currentInterval sc = max NODE_SPAWN_INTERVAL_MIN (NODE_SPAWN_INTERVAL_START - (sc * 10))"

definition scheduleNextSpawn :: "world \<Rightarrow> world" where
  "scheduleNextSpawn w =
     (if \<not> gameRunning w \<or> gameOver w then w
      else w\<lparr>nodeSpawnInterval := Some (currentInterval (score w))\<rparr>)"

definition startGameTimers :: "world \<Rightarrow> world" where
  "startGameTimers w =
     scheduleNextSpawn ((stopGameTimers w)\<lparr>scoreInterval := True, gameLoopInterval := True\<rparr>)"

text \<open>The callback of \<^verbatim>\<open>scoreInterval\<close>.\<close>

definition scoreTick :: "world \<Rightarrow> world" where
  "scoreTick w = (if \<not> gameRunning w \<or> gameOver w then w else w\<lparr>score := score w + 1\<rparr>)"

text \<open>
  The \<^verbatim>\<open>nodes.map\<close> of the game loop: it runs over the nodes in order, lowers each timer by
  100 and, for a node whose timer is then at most 0, lowers the health (clamped at 0), sets
  \<^verbatim>\<open>missed\<close> and yields \<^verbatim>\<open>null\<close>. The health and \<^verbatim>\<open>missed\<close> are threaded through.
\<close>

fun mapNodes :: "node list \<Rightarrow> rat \<Rightarrow> bool \<Rightarrow> node option list \<times> rat \<times> bool" where
  "mapNodes [] h missed = ([], h, missed)"
| "mapNodes (n # ns) h missed =
     (if timer n - 100 \<le> 0 then
        (case mapNodes ns (max 0 (h - HEALTH_LOSS_PER_MISS)) True of
           (r, h', missed') \<Rightarrow> (None # r, h', missed'))
      else
        (case mapNodes ns h missed of
           (r, h', missed') \<Rightarrow> (Some (n\<lparr>timer := timer n - 100\<rparr>) # r, h', missed')))"

text \<open>\<^verbatim>\<open>.filter(Boolean)\<close>: drops the \<^verbatim>\<open>null\<close> entries.\<close>

fun filterBoolean :: "node option list \<Rightarrow> node list" where
  "filterBoolean [] = []"
| "filterBoolean (None # r) = filterBoolean r"
| "filterBoolean (Some n # r) = n # filterBoolean r"

text \<open>
  The callback of \<^verbatim>\<open>gameLoopInterval\<close>, run every 100 ms. \<^verbatim>\<open>score % 5 === 0\<close> holds exactly
  when 5 divides the score, whatever its sign. The broadcast is the last statement of each
  branch that has one.
\<close>

definition gameLoopTick :: "world \<Rightarrow> outcome" where
  "gameLoopTick w =
     (if \<not> gameRunning w \<or> gameOver w then Inr w
      else
        (case mapNodes (nodes w) (max 0 (pulseHealth w - HEALTH_DRAIN_RATE / (1000 / 100))) False of
           (r, h, missed) \<Rightarrow>
             if h \<le> 0 then
               broadcastGameOver
                 (stopGameTimers
                    (w\<lparr>pulseHealth := h, nodes := filterBoolean r,
                       gameOver := True, gameRunning := False\<rparr>))
             else if missed \<or> score w mod 5 = 0 then
               broadcastGameState (w\<lparr>pulseHealth := h, nodes := filterBoolean r\<rparr>)
             else Inr (w\<lparr>pulseHealth := h, nodes := filterBoolean r\<rparr>)))"

text \<open>
  \<^verbatim>\<open>spawnNode\<close>; \<open>r1\<close> and \<open>r2\<close> are the two values \<^verbatim>\<open>Math.random()\<close> returns.
\<close>

definition spawnNode :: "rat \<Rightarrow> rat \<Rightarrow> world \<Rightarrow> world" where
  "spawnNode r1 r2 w =
     (if \<not> isHost w \<or> \<not> gameRunning w \<or> gameOver w then w
      else w\<lparr>nodes := nodes w @
                 [\<lparr>node_id = nextNodeId w, node_x = r1 * 80 + 10, node_y = r2 * 80 + 10,
                   timer = NODE_TIMER_DURATION, maxTimer = NODE_TIMER_DURATION\<rparr>],
             nextNodeId := nextNodeId w + 1\<rparr>)"

text \<open>The callback of the spawn timeout: \<^verbatim>\<open>spawnNode(); scheduleNextSpawn();\<close>.\<close>

definition spawnTimeout :: "rat \<Rightarrow> rat \<Rightarrow> world \<Rightarrow> world" where
  "spawnTimeout r1 r2 w = scheduleNextSpawn (spawnNode r1 r2 w)"

text \<open>\<^verbatim>\<open>handleNodeClick\<close>; \<^verbatim>\<open>findIndex\<close> returns \<open>-1\<close> when no node has the identifier.\<close>

definition handleNodeClick :: "int \<Rightarrow> peer_id \<Rightarrow> world \<Rightarrow> outcome" where
  "handleNodeClick nodeId clickerPeerId w =
     (if \<not> isHost w \<or> \<not> gameRunning w \<or> gameOver w then Inr w
      else if find (\<lambda>n. node_id n = nodeId) (nodes w) \<noteq> None then
        broadcastGameState
          (w\<lparr>pulseHealth := min MAX_HEALTH (pulseHealth w + HEALTH_GAIN_PER_CLICK),
             nodes := filter (\<lambda>n. node_id n \<noteq> nodeId) (nodes w)\<rparr>)
      else Inr w)"

text \<open>
  \<^verbatim>\<open>Object.keys($connections).length\<close>, and the comparison
  \<^verbatim>\<open>!Object.keys($connections).length === 0\<close> of \<^verbatim>\<open>startGameHost\<close>: the negation is applied
  first and yields a boolean, and \<^verbatim>\<open>===\<close> between a boolean and a number is false.
\<close>

definition connections_count :: "world \<Rightarrow> nat" where
  "connections_count w =
     (case connections w of EmptyObject \<Rightarrow> 0 | CurrentConnections \<Rightarrow> length (currentConnections w))"

definition strict_equals_bool_num :: "bool \<Rightarrow> nat \<Rightarrow> bool" where
  "strict_equals_bool_num b n = False"

text \<open>\<^verbatim>\<open>startGameHost\<close>. The store value \<^verbatim>\<open>$connections\<close> is always an object, hence truthy.\<close>

definition startGameHost :: "world \<Rightarrow> outcome" where
  "startGameHost w =
     (if (\<not> isHost w \<or> gameRunning w \<or> connections_count w = 0) \<and>
         (strict_equals_bool_num (connections_count w = 0) 0 \<and> \<not> isHost w)
      then Inr (w\<lparr>connectionError := ''Wait for players to join!''\<rparr>)
      else
        broadcastGameState
          (startGameTimers
             (w\<lparr>gameOver := False, pulseHealth := MAX_HEALTH, score := 0, nodes := [],
                nextNodeId := 0, gameRunning := True\<rparr>)))"

text \<open>
  \<^verbatim>\<open>window.handleGameData\<close>, the handler of incoming messages. \<^verbatim>\<open>if (data.finalScore)\<close>
  holds for a number other than 0.
\<close>

fun handleGameData :: "msg \<Rightarrow> peer_id \<Rightarrow> world \<Rightarrow> outcome" where
  "handleGameData (GameStateUpdate st) senderPeerId w =
     (if \<not> isHost w then
        (if hostConnection w \<noteq> None \<and> Some senderPeerId = hostConnection w then
           Inr (w\<lparr>pulseHealth := st_health st, score := st_score st, nodes := st_nodes st,
                  gameRunning := st_running st, gameOver := st_gameOver st\<rparr>)
         else Inr w)
      else Inr w)"
| "handleGameData (PlayerAction a nodeId) senderPeerId w =
     (if isHost w then
        (if a = ''clickNode'' then handleNodeClick nodeId senderPeerId w else Inr w)
      else Inr w)"
| "handleGameData (GameOver finalScore) senderPeerId w =
     (if \<not> isHost w then
        (if finalScore \<noteq> 0 then
           Inr ((stopGameTimers (w\<lparr>gameOver := True, gameRunning := False\<rparr>))
                  \<lparr>score := finalScore\<rparr>)
         else Inr (stopGameTimers (w\<lparr>gameOver := True, gameRunning := False\<rparr>)))
      else Inr w)"
| "handleGameData (Welcome m h) senderPeerId w = Inr w"
| "handleGameData (PeerDisconnect p) senderPeerId w = Inr w"
| "handleGameData (UnknownMsg t) senderPeerId w = Inr w"

text \<open>
  The events of the host's simulation: the three timer callbacks, an interaction, and the
  start of a game. Each is handled to completion before the next; an error a handler raises
  is not caught by the page, it ends that handler and the later events find the state the
  handler left.
\<close>

datatype event =
    GameLoopTick
  | ScoreTick
  | SpawnTimeout rat rat
  | NodeClick int peer_id
  | StartGame

fun handle :: "event \<Rightarrow> world \<Rightarrow> outcome" where
  "handle GameLoopTick w = gameLoopTick w"
| "handle ScoreTick w = Inr (scoreTick w)"
| "handle (SpawnTimeout r1 r2) w = Inr (spawnTimeout r1 r2 w)"
| "handle (NodeClick nodeId p) w = handleNodeClick nodeId p w"
| "handle StartGame w = startGameHost w"

definition step :: "event \<Rightarrow> world \<Rightarrow> world" where
  "step e w = after (handle e w)"

fun run :: "event list \<Rightarrow> world \<Rightarrow> world" where
  "run [] w = w"
| "run (e # es) w = run es (step e w)"

section \<open>Notions used in the statements\<close>

text \<open>
  The state of both modules when the page is loaded: the initial values of the stores and
  of the component's variables.
\<close>

definition initial_world :: world where
  "initial_world =
     \<lparr>isHost = False, connections = EmptyObject, currentConnections = [],
      hostConnection = None, connectionStatus = ''disconnected'', connectedPeers = [],
      connectionError = [], sent = [], gameHandlers = False,
      gameRunning = False, pulseHealth = 100, score = 0, nodes = [], gameOver = False,
      gameLoopInterval = False, nodeSpawnInterval = None, scoreInterval = False,
      nextNodeId = 0\<rparr>"

text \<open>Node identifiers are pairwise distinct and below the next identifier to assign.\<close>

definition ids_fresh :: "world \<Rightarrow> bool" where
  "ids_fresh w \<longleftrightarrow>
     distinct (map node_id (nodes w)) \<and> (\<forall>n \<in> set (nodes w). node_id n < nextNodeId w)"

text \<open>The miss penalty of the game loop, applied once per expired node.\<close>

definition miss_penalty :: "rat \<Rightarrow> rat" where
  "miss_penalty h = max 0 (h - HEALTH_LOSS_PER_MISS)"

text \<open>A node whose timer is at most 0 after this tick's decrement.\<close>

definition expires :: "node \<Rightarrow> bool" where
  "expires n \<longleftrightarrow> timer n - 100 \<le> 0"

text \<open>The health and the nodes the game loop leaves after a tick of a running game: the drain,
  then one miss penalty for each expired node; the nodes that remain, with their timers
  lowered.\<close>

definition ticked :: "world \<Rightarrow> world" where
  "ticked w =
     w\<lparr>pulseHealth :=
         (miss_penalty ^^ length (filter expires (nodes w)))
           (max 0 (pulseHealth w - HEALTH_DRAIN_RATE / (1000 / 100))),
       nodes := map (\<lambda>n. n\<lparr>timer := timer n - 100\<rparr>) (filter (\<lambda>n. \<not> expires n) (nodes w))\<rparr>"

text \<open>An identifier that has been assigned and is not in the sequence of nodes.\<close>

definition retired :: "int \<Rightarrow> world \<Rightarrow> bool" where
  "retired i w \<longleftrightarrow> i < nextNodeId w \<and> i \<notin> node_id ` set (nodes w)"

text \<open>A message whose health, if it is a snapshot, is in \<open>[0, MAX_HEALTH]\<close>.\<close>

definition healthy_message :: "msg \<Rightarrow> bool" where
  "healthy_message m =
     (case m of
        GameStateUpdate st \<Rightarrow> 0 \<le> st_health st \<and> st_health st \<le> MAX_HEALTH
      | _ \<Rightarrow> True)"

subsection \<open>Example states\<close>

text \<open>A peer that has become the host; no connection is stored.\<close>

definition host_world :: world where
  "host_world =
     initial_world\<lparr>isHost := True, connectionStatus := ''connected'', gameHandlers := True\<rparr>"

text \<open>A node in the middle of the board with the given identifier and timer.\<close>

definition sample_node :: "int \<Rightarrow> int \<Rightarrow> node" where
  "sample_node i t =
     \<lparr>node_id = i, node_x = 50, node_y = 50, timer = t, maxTimer = NODE_TIMER_DURATION\<rparr>"

text \<open>That host in the seventh second of a game, with one node on the board.\<close>

definition running_host :: world where
  "running_host =
     host_world
       \<lparr>gameRunning := True, pulseHealth := 42, score := 7, nodes := [sample_node 3 2500],
        nextNodeId := 4, gameLoopInterval := True, scoreInterval := True,
        nodeSpawnInterval := Some 2930\<rparr>"

text \<open>The same host with little health left and a node in its last tick.\<close>

definition dying_host :: world where
  "dying_host = running_host\<lparr>pulseHealth := 10, nodes := [sample_node 3 100]\<rparr>"

text \<open>A client bound to the host \<open>hostA\<close>, mirroring a running game.\<close>

definition client_of_hostA :: world where
  "client_of_hostA =
     initial_world
       \<lparr>hostConnection := Some ''hostA'', connectionStatus := ''connected'',
        gameHandlers := True, gameRunning := True, pulseHealth := 80, score := 12\<rparr>"

section \<open>Termination of the broadcast\<close>

text \<open>
  The loop calls itself on the remaining keys. The calls of \<^verbatim>\<open>broadcastData\<close> and
  \<^verbatim>\<open>handleDisconnect\<close> that would close the cycle stand behind a \<^verbatim>\<open>get\<close> that has returned,
  which it never does.
\<close>

lemma get_never_returns: "get store \<noteq> Inr v"
  by (simp add: get_def)

termination broadcastData
proof (relation "measure (\<lambda>x. case x of
      Inl (Inl (d, w)) \<Rightarrow> 0
    | Inl (Inr (d, ps, w)) \<Rightarrow> Suc (length ps)
    | Inr (Inl (p, w)) \<Rightarrow> 0
    | Inr (Inr (p, w)) \<Rightarrow> Suc 0)", goal_cases)
  case 1
  show ?case by simp
next
  case 2
  then show ?case by (simp add: get_never_returns)
next
  case 3
  then show ?case by simp
next
  case 4
  then show ?case by simp
next
  case 5
  then show ?case by simp
next
  case 6
  then show ?case by simp
next
  case 7
  then show ?case by simp
next
  case 8
  then show ?case by (simp add: get_never_returns)
next
  case 9
  then show ?case by (simp add: get_never_returns)
next
  case 10
  then show ?case by simp
qed

declare broadcastData.simps [simp del] broadcastLoop.simps [simp del]
  handleDisconnect.simps [simp del] handleGameDisconnect.simps [simp del]

section \<open>The store's functions raise\<close>

lemma broadcastData_raises: "broadcastData d w = Inl (ReferenceError ''get'', w)"
  by (simp add: broadcastData.simps get_def)

lemma handleDisconnect_raises: "handleDisconnect p w = Inl (ReferenceError ''get'', w)"
  by (simp add: handleDisconnect.simps get_def)

lemma broadcastGameState_outcome:
  "broadcastGameState w = (if isHost w then Inl (ReferenceError ''get'', w) else Inr w)"
  by (simp add: broadcastGameState_def broadcastData_raises)

lemma broadcastGameOver_outcome:
  "broadcastGameOver w =
     (if isHost w then Inl (ReferenceError ''get'', stopGameTimers w) else Inr w)"
  by (simp add: broadcastGameOver_def broadcastData_raises)

lemma after_simps [simp]:
  "after (Inl (e, w)) = w"
  "after (Inr w) = w"
  by (simp_all add: after_def)

lemma raises_simps [simp]:
  "raises (Inl (e, w)) = Some e"
  "raises (Inr w) = None"
  by (simp_all add: raises_def)

lemma after_broadcastGameState [simp]: "after (broadcastGameState w) = w"
  by (simp add: broadcastGameState_outcome)

lemma stopGameTimers_twice [simp]: "stopGameTimers (stopGameTimers w) = stopGameTimers w"
  by (simp add: stopGameTimers_def)

lemma after_broadcastGameOver_stopped [simp]:
  "after (broadcastGameOver (stopGameTimers w)) = stopGameTimers w"
  by (simp add: broadcastGameOver_outcome)

section \<open>The page's variables under the game operations\<close>

subsection \<open>The pass of the game loop over the nodes\<close>

lemma filterBoolean_entries:
  "filterBoolean (map (\<lambda>n. if expires n then None else Some (f n)) ns) =
     map f (filter (\<lambda>n. \<not> expires n) ns)"
  by (induction ns) auto

lemma mapNodes_result:
  "mapNodes ns h m =
     (map (\<lambda>n. if expires n then None else Some (n\<lparr>timer := timer n - 100\<rparr>)) ns,
      (miss_penalty ^^ length (filter expires ns)) h,
      m \<or> (\<exists>n \<in> set ns. expires n))"
proof (induction ns arbitrary: h m)
  case Nil
  show ?case by simp
next
  case (Cons n ns)
  show ?case
  proof (cases "expires n")
    case True
    then have "timer n - 100 \<le> 0" by (simp add: expires_def)
    then show ?thesis
      using True Cons.IH[of "miss_penalty h" True]
      by (simp add: miss_penalty_def[symmetric] funpow_swap1)
  next
    case False
    then have "\<not> timer n - 100 \<le> 0" by (simp add: expires_def)
    then show ?thesis
      using False Cons.IH[of h m] by simp
  qed
qed

lemma miss_penalty_bounds: "0 \<le> h \<Longrightarrow> 0 \<le> (miss_penalty ^^ k) h \<and> (miss_penalty ^^ k) h \<le> h"
proof (induction k)
  case 0
  then show ?case by simp
next
  case (Suc k)
  then show ?case by (auto simp: miss_penalty_def HEALTH_LOSS_PER_MISS_def)
qed

text \<open>The outcome of a tick of a running game, by its three branches.\<close>

lemma gameLoopTick_running:
  "gameRunning w \<Longrightarrow> \<not> gameOver w \<Longrightarrow>
   gameLoopTick w =
     (if pulseHealth (ticked w) \<le> 0 then
        broadcastGameOver (stopGameTimers ((ticked w)\<lparr>gameOver := True, gameRunning := False\<rparr>))
      else if (\<exists>n \<in> set (nodes w). expires n) \<or> score w mod 5 = 0 then
        broadcastGameState (ticked w)
      else Inr (ticked w))"
  by (simp add: gameLoopTick_def mapNodes_result filterBoolean_entries ticked_def)

lemma after_gameLoopTick_running:
  "gameRunning w \<Longrightarrow> \<not> gameOver w \<Longrightarrow>
   after (gameLoopTick w) =
     (if pulseHealth (ticked w) \<le> 0 then
        stopGameTimers ((ticked w)\<lparr>gameOver := True, gameRunning := False\<rparr>)
      else ticked w)"
  by (simp add: gameLoopTick_running)

lemma gameLoopTick_idle: "\<not> gameRunning w \<or> gameOver w \<Longrightarrow> gameLoopTick w = Inr w"
  by (auto simp: gameLoopTick_def)

lemma gameLoopTick_health:
  "gameRunning w \<Longrightarrow> \<not> gameOver w \<Longrightarrow>
   pulseHealth (after (gameLoopTick w)) = pulseHealth (ticked w)"
  by (simp add: after_gameLoopTick_running stopGameTimers_def)

lemma gameLoopTick_nodes:
  "gameRunning w \<Longrightarrow> \<not> gameOver w \<Longrightarrow> nodes (after (gameLoopTick w)) = nodes (ticked w)"
  by (simp add: after_gameLoopTick_running stopGameTimers_def)

lemma gameLoopTick_nextNodeId: "nextNodeId (after (gameLoopTick w)) = nextNodeId w"
proof (cases "gameRunning w \<and> \<not> gameOver w")
  case True
  then show ?thesis by (simp add: after_gameLoopTick_running stopGameTimers_def ticked_def)
next
  case False
  then show ?thesis using gameLoopTick_idle[of w] by auto
qed

lemma gameLoopTick_sent: "sent (after (gameLoopTick w)) = sent w"
proof (cases "gameRunning w \<and> \<not> gameOver w")
  case True
  then show ?thesis by (simp add: after_gameLoopTick_running stopGameTimers_def ticked_def)
next
  case False
  then show ?thesis using gameLoopTick_idle[of w] by auto
qed

subsection \<open>Interactions\<close>

lemma after_handleNodeClick:
  "after (handleNodeClick i p w) =
     (if \<not> isHost w \<or> \<not> gameRunning w \<or> gameOver w then w
      else if find (\<lambda>n. node_id n = i) (nodes w) \<noteq> None then
        w\<lparr>pulseHealth := min MAX_HEALTH (pulseHealth w + HEALTH_GAIN_PER_CLICK),
          nodes := filter (\<lambda>n. node_id n \<noteq> i) (nodes w)\<rparr>
      else w)"
  by (simp add: handleNodeClick_def)

subsection \<open>Starting a game\<close>

lemma startGameHost_unfold:
  "startGameHost w =
     broadcastGameState
       (startGameTimers
          (w\<lparr>gameOver := False, pulseHealth := MAX_HEALTH, score := 0, nodes := [],
             nextNodeId := 0, gameRunning := True\<rparr>))"
  by (simp add: startGameHost_def strict_equals_bool_num_def)

lemma after_startGameHost:
  "after (startGameHost w) =
     startGameTimers
       (w\<lparr>gameOver := False, pulseHealth := MAX_HEALTH, score := 0, nodes := [],
          nextNodeId := 0, gameRunning := True\<rparr>)"
  by (simp add: startGameHost_unfold)

lemma startGameHost_fields [simp]:
  "pulseHealth (after (startGameHost w)) = MAX_HEALTH"
  "score (after (startGameHost w)) = 0"
  "nodes (after (startGameHost w)) = []"
  "nextNodeId (after (startGameHost w)) = 0"
  "gameRunning (after (startGameHost w))"
  "\<not> gameOver (after (startGameHost w))"
  "isHost (after (startGameHost w)) = isHost w"
  "sent (after (startGameHost w)) = sent w"
  by (simp_all add: after_startGameHost startGameTimers_def scheduleNextSpawn_def
      stopGameTimers_def)

subsection \<open>The log of sends\<close>

lemma step_sent: "sent (step e w) = sent w"
proof (cases e)
  case GameLoopTick
  then show ?thesis by (simp add: step_def gameLoopTick_sent)
next
  case ScoreTick
  then show ?thesis by (simp add: step_def scoreTick_def)
next
  case (SpawnTimeout r1 r2)
  then show ?thesis
    by (simp add: step_def spawnTimeout_def spawnNode_def scheduleNextSpawn_def)
next
  case (NodeClick i p)
  then show ?thesis by (simp add: step_def after_handleNodeClick)
next
  case StartGame
  then show ?thesis by (simp add: step_def)
qed

lemma run_sent: "sent (run evs w) = sent w"
  by (induction evs arbitrary: w) (simp_all add: step_sent)

subsection \<open>A finished game ignores the simulation events\<close>

lemma step_when_over: "gameOver w \<Longrightarrow> e \<noteq> StartGame \<Longrightarrow> step e w = w"
  by (cases e)
    (simp_all add: step_def gameLoopTick_def scoreTick_def spawnTimeout_def spawnNode_def
      scheduleNextSpawn_def handleNodeClick_def)

lemma run_when_over: "gameOver w \<Longrightarrow> StartGame \<notin> set evs \<Longrightarrow> run evs w = w"
proof (induction evs)
  case Nil
  show ?case by simp
next
  case (Cons e evs)
  then have "step e w = w" using step_when_over[of w e] by auto
  with Cons show ?case by simp
qed

subsection \<open>Health stays in its interval\<close>

lemma ticked_health:
  "0 \<le> pulseHealth w \<Longrightarrow> pulseHealth w \<le> MAX_HEALTH \<Longrightarrow>
   0 \<le> pulseHealth (ticked w) \<and> pulseHealth (ticked w) \<le> MAX_HEALTH"
proof -
  assume lo: "0 \<le> pulseHealth w" and hi: "pulseHealth w \<le> MAX_HEALTH"
  let ?d = "max 0 (pulseHealth w - HEALTH_DRAIN_RATE / (1000 / 100))"
  have d0: "0 \<le> ?d" by simp
  have d1: "?d \<le> MAX_HEALTH"
    using lo hi by (simp add: MAX_HEALTH_def HEALTH_DRAIN_RATE_def)
  let ?k = "length (filter expires (nodes w))"
  have "0 \<le> (miss_penalty ^^ ?k) ?d" and "(miss_penalty ^^ ?k) ?d \<le> ?d"
    using miss_penalty_bounds[OF d0, of ?k] by simp_all
  moreover from this(2) d1 have "(miss_penalty ^^ ?k) ?d \<le> MAX_HEALTH" by (rule order_trans)
  ultimately show ?thesis by (simp add: ticked_def)
qed

lemma step_health:
  "0 \<le> pulseHealth w \<and> pulseHealth w \<le> MAX_HEALTH \<Longrightarrow>
   0 \<le> pulseHealth (step e w) \<and> pulseHealth (step e w) \<le> MAX_HEALTH"
proof (cases e)
  case GameLoopTick
  assume ok: "0 \<le> pulseHealth w \<and> pulseHealth w \<le> MAX_HEALTH"
  show ?thesis
  proof (cases "gameRunning w \<and> \<not> gameOver w")
    case True
    then show ?thesis
      using ok GameLoopTick ticked_health[of w] by (simp add: step_def gameLoopTick_health)
  next
    case False
    then show ?thesis using ok GameLoopTick gameLoopTick_idle[of w] by (auto simp: step_def)
  qed
next
  case ScoreTick
  assume "0 \<le> pulseHealth w \<and> pulseHealth w \<le> MAX_HEALTH"
  then show ?thesis using ScoreTick by (simp add: step_def scoreTick_def)
next
  case (SpawnTimeout r1 r2)
  assume "0 \<le> pulseHealth w \<and> pulseHealth w \<le> MAX_HEALTH"
  then show ?thesis
    using SpawnTimeout
    by (simp add: step_def spawnTimeout_def spawnNode_def scheduleNextSpawn_def)
next
  case (NodeClick i p)
  assume "0 \<le> pulseHealth w \<and> pulseHealth w \<le> MAX_HEALTH"
  then show ?thesis
    using NodeClick
    by (simp add: step_def after_handleNodeClick MAX_HEALTH_def HEALTH_GAIN_PER_CLICK_def)
next
  case StartGame
  then show ?thesis by (simp add: step_def MAX_HEALTH_def)
qed

lemma run_health:
  "0 \<le> pulseHealth w \<and> pulseHealth w \<le> MAX_HEALTH \<Longrightarrow>
   0 \<le> pulseHealth (run evs w) \<and> pulseHealth (run evs w) \<le> MAX_HEALTH"
proof (induction evs arbitrary: w)
  case Nil
  then show ?case by simp
next
  case (Cons e evs)
  from Cons.IH[OF step_health[OF Cons.prems, of e]] show ?case by simp
qed

subsection \<open>Node identifiers\<close>

lemma ticked_ids:
  "map node_id (nodes (ticked w)) = map node_id (filter (\<lambda>n. \<not> expires n) (nodes w))"
  by (simp add: ticked_def comp_def)

lemma step_ids_fresh: "ids_fresh w \<Longrightarrow> ids_fresh (step e w)"
proof (cases e)
  case GameLoopTick
  assume f: "ids_fresh w"
  show ?thesis
  proof (cases "gameRunning w \<and> \<not> gameOver w")
    case True
    have "distinct (map node_id (nodes (ticked w)))"
      using f by (simp add: ticked_ids ids_fresh_def distinct_map_filter)
    moreover have "\<forall>n \<in> set (nodes (ticked w)). node_id n < nextNodeId w"
      using f by (auto simp: ticked_def ids_fresh_def)
    ultimately show ?thesis
      using True GameLoopTick
      by (simp add: step_def ids_fresh_def gameLoopTick_nodes gameLoopTick_nextNodeId)
  next
    case False
    then show ?thesis using f GameLoopTick gameLoopTick_idle[of w] by (auto simp: step_def)
  qed
next
  case ScoreTick
  assume "ids_fresh w"
  then show ?thesis using ScoreTick by (simp add: step_def scoreTick_def ids_fresh_def)
next
  case (SpawnTimeout r1 r2)
  assume "ids_fresh w"
  then show ?thesis
    using SpawnTimeout
    by (auto simp: step_def spawnTimeout_def spawnNode_def scheduleNextSpawn_def ids_fresh_def)
next
  case (NodeClick i p)
  assume "ids_fresh w"
  then show ?thesis
    using NodeClick
    by (auto simp: step_def after_handleNodeClick ids_fresh_def distinct_map_filter)
next
  case StartGame
  then show ?thesis by (simp add: step_def ids_fresh_def)
qed

lemma run_ids_fresh: "ids_fresh w \<Longrightarrow> ids_fresh (run evs w)"
  by (induction evs arbitrary: w) (simp_all add: step_ids_fresh)

lemma reachable_ids_fresh: "ids_fresh (run evs (after (startGameHost w0)))"
  by (rule run_ids_fresh) (simp add: ids_fresh_def)

lemma step_retired: "retired i w \<Longrightarrow> e \<noteq> StartGame \<Longrightarrow> retired i (step e w)"
proof (cases e)
  case GameLoopTick
  assume r: "retired i w"
  show ?thesis
  proof (cases "gameRunning w \<and> \<not> gameOver w")
    case True
    have "i \<notin> node_id ` set (nodes (ticked w))"
      using r by (auto simp: ticked_def retired_def)
    then show ?thesis
      using r True GameLoopTick
      by (simp add: step_def retired_def gameLoopTick_nodes gameLoopTick_nextNodeId)
  next
    case False
    then show ?thesis using r GameLoopTick gameLoopTick_idle[of w] by (auto simp: step_def)
  qed
next
  case ScoreTick
  assume "retired i w"
  then show ?thesis using ScoreTick by (simp add: step_def scoreTick_def retired_def)
next
  case (SpawnTimeout r1 r2)
  assume "retired i w"
  then show ?thesis
    using SpawnTimeout
    by (auto simp: step_def spawnTimeout_def spawnNode_def scheduleNextSpawn_def retired_def)
next
  case (NodeClick j p)
  assume "retired i w"
  then show ?thesis
    using NodeClick by (auto simp: step_def after_handleNodeClick retired_def)
next
  case StartGame
  assume "e \<noteq> StartGame"
  with StartGame show ?thesis by simp
qed

lemma run_retired: "retired i w \<Longrightarrow> StartGame \<notin> set evs \<Longrightarrow> retired i (run evs w)"
proof (induction evs arbitrary: w)
  case Nil
  then show ?case by simp
next
  case (Cons e evs)
  then have "retired i (step e w)" using step_retired[of i w e] by auto
  with Cons show ?case by simp
qed

lemma expired_node_retired:
  assumes "ids_fresh w" "n \<in> set (nodes w)" "expires n"
  shows "retired (node_id n) (ticked w)"
proof -
  have "node_id n < nextNodeId w" using assms(1,2) by (simp add: ids_fresh_def)
  moreover have "node_id n \<notin> node_id ` set (filter (\<lambda>m. \<not> expires m) (nodes w))"
  proof
    assume "node_id n \<in> node_id ` set (filter (\<lambda>m. \<not> expires m) (nodes w))"
    then obtain m where m: "m \<in> set (nodes w)" "\<not> expires m" "node_id m = node_id n" by auto
    have "inj_on node_id (set (nodes w))"
      using assms(1) by (simp add: ids_fresh_def distinct_map)
    then have "m = n" using m(1,3) assms(2) by (auto dest: inj_onD)
    with m(2) assms(3) show False by simp
  qed
  ultimately show ?thesis by (simp add: retired_def ticked_def image_image)
qed

lemma filter_other_ids:
  "distinct (map node_id ns) \<Longrightarrow> n \<in> set ns \<Longrightarrow>
   filter (\<lambda>m. node_id m \<noteq> node_id n) ns = remove1 n ns"
proof (induction ns)
  case Nil
  then show ?case by simp
next
  case (Cons a ns)
  show ?case
  proof (cases "a = n")
    case True
    have "node_id n \<notin> node_id ` set ns" using Cons.prems(1) True by simp
    then have "\<forall>m \<in> set ns. node_id m \<noteq> node_id n" by (metis imageI)
    then have "filter (\<lambda>m. node_id m \<noteq> node_id n) ns = ns" by (simp add: filter_id_conv)
    then show ?thesis using True by simp
  next
    case False
    then have "n \<in> set ns" using Cons.prems(2) by simp
    moreover have "node_id a \<noteq> node_id n" using Cons.prems(1) \<open>n \<in> set ns\<close> by auto
    ultimately show ?thesis using Cons False by simp
  qed
qed

lemma find_by_id: "(find (\<lambda>n. node_id n = i) ns \<noteq> None) = (i \<in> node_id ` set ns)"
  by (auto simp: find_None_iff)

subsection \<open>Ticks without expiry\<close>

text \<open>
  While no node expires, the health stays above 0 and the score is not a multiple of 5,
  \<open>k\<close> ticks only drain the health and lower the timers.
\<close>

lemma quiet_ticks:
  "gameRunning w \<Longrightarrow> \<not> gameOver w \<Longrightarrow> score w mod 5 \<noteq> 0 \<Longrightarrow>
   \<forall>n \<in> set (nodes w). 100 * int k < timer n \<Longrightarrow> of_nat k / 10 < pulseHealth w \<Longrightarrow>
   run (replicate k GameLoopTick) w =
     w\<lparr>pulseHealth := pulseHealth w - of_nat k / 10,
       nodes := map (\<lambda>n. n\<lparr>timer := timer n - 100 * int k\<rparr>) (nodes w)\<rparr>"
proof (induction k arbitrary: w)
  case 0
  then show ?case by simp
next
  case (Suc k)
  have live: "\<forall>n \<in> set (nodes w). \<not> expires n"
    using Suc.prems(4) by (auto simp: expires_def)
  then have none: "filter expires (nodes w) = []" and all: "filter (\<lambda>n. \<not> expires n) (nodes w) = nodes w"
    by (simp_all add: filter_empty_conv filter_id_conv)
  have "(1::rat) \<le> of_nat (Suc k)" by simp
  then have "(1::rat) / 10 \<le> of_nat (Suc k) / 10" by simp
  then have pos: "1 / 10 < pulseHealth w" using Suc.prems(5) by (rule order_le_less_trans)
  let ?w1 = "w\<lparr>pulseHealth := pulseHealth w - 1 / 10,
                nodes := map (\<lambda>n. n\<lparr>timer := timer n - 100\<rparr>) (nodes w)\<rparr>"
  have t: "ticked w = ?w1"
    using pos by (simp add: ticked_def none all HEALTH_DRAIN_RATE_def)
  have step1: "step GameLoopTick w = ?w1"
    using Suc.prems(1,2,3) live pos by (simp add: step_def gameLoopTick_running t)
  have p1: "gameRunning ?w1" "\<not> gameOver ?w1" "score ?w1 mod 5 \<noteq> 0"
    using Suc.prems(1,2,3) by simp_all
  have p4: "\<forall>n \<in> set (nodes ?w1). 100 * int k < timer n"
    using Suc.prems(4) by auto
  have p5: "of_nat k / 10 < pulseHealth ?w1"
    using Suc.prems(5) by (simp add: field_simps)
  have "run (replicate (Suc k) GameLoopTick) w = run (replicate k GameLoopTick) ?w1"
    by (simp add: step1)
  also have "\<dots> = ?w1\<lparr>pulseHealth := pulseHealth ?w1 - of_nat k / 10,
       nodes := map (\<lambda>n. n\<lparr>timer := timer n - 100 * int k\<rparr>) (nodes ?w1)\<rparr>"
    using Suc.IH[OF p1 p4 p5] .
  also have "\<dots> = w\<lparr>pulseHealth := pulseHealth w - of_nat (Suc k) / 10,
       nodes := map (\<lambda>n. n\<lparr>timer := timer n - 100 * int (Suc k)\<rparr>) (nodes w)\<rparr>"
    by (simp add: field_simps comp_def)
  finally show ?case .
qed

section \<open>Broadcast\<close>

text \<open>
  Claim C9. \<^verbatim>\<open>broadcastData\<close> raises \<^verbatim>\<open>ReferenceError\<close> at its first statement, \<^verbatim>\<open>get(isHost)\<close>, on
  every call: called by a peer that is not the host, by a host without connections and by a
  host with connections alike. It does not return, it sends nothing and it leaves the state
  as it was. \<^verbatim>\<open>handleDisconnect\<close>, which its \<^verbatim>\<open>catch\<close> block would call for a failing peer,
  raises in the same way before it removes anything.
\<close>

theorem broadcastData_raises_on_every_call:
  "broadcastData d w = Inl (ReferenceError ''get'', w) \<and>
   raises (broadcastData d w) = Some (ReferenceError ''get'') \<and>
   after (broadcastData d w) = w \<and>
   sent (after (broadcastData d w)) = sent w \<and>
   handleDisconnect p w = Inl (ReferenceError ''get'', w)"
  by (simp add: broadcastData_raises handleDisconnect_raises)

theorem broadcastData_raises_on_every_call_witness:
  "\<not> isHost initial_world \<and>
   broadcastData (GameOver 7) initial_world = Inl (ReferenceError ''get'', initial_world) \<and>
   isHost host_world \<and> connections_count host_world = 0 \<and>
   broadcastData (GameOver 7) host_world = Inl (ReferenceError ''get'', host_world) \<and>
   raises (broadcastData (GameOver 7) host_world) = Some (ReferenceError ''get'') \<and>
   sent (after (broadcastData (GameOver 7) host_world)) = []"
proof -
  have n: "\<not> isHost initial_world" by (simp add: initial_world_def)
  have h: "isHost host_world" "connections_count host_world = 0" "sent host_world = []"
    by (simp_all add: host_world_def initial_world_def connections_count_def)
  note a = broadcastData_raises_on_every_call[of "GameOver 7" initial_world]
  note b = broadcastData_raises_on_every_call[of "GameOver 7" host_world]
  have t1: "broadcastData (GameOver 7) initial_world = Inl (ReferenceError ''get'', initial_world)"
    using a by blast
  have t2: "broadcastData (GameOver 7) host_world = Inl (ReferenceError ''get'', host_world)"
    "raises (broadcastData (GameOver 7) host_world) = Some (ReferenceError ''get'')"
    using b by blast+
  have "sent (after (broadcastData (GameOver 7) host_world)) = sent host_world"
    using b by blast
  then have t3: "sent (after (broadcastData (GameOver 7) host_world)) = []"
    by (simp add: h(3))
  show ?thesis using n h(1,2) t1 t2 t3 by blast
qed

section \<open>Difficulty ramp\<close>

text \<open>
  Claim C8. The delay the spawn timeout is armed with is
  \<open>max NODE_SPAWN_INTERVAL_MIN (NODE_SPAWN_INTERVAL_START - score * 10)\<close>, for every score;
  it does not grow when the score grows, and it is never below \<open>NODE_SPAWN_INTERVAL_MIN\<close>.
\<close>

theorem spawn_delay_ramp:
  "currentInterval s = max NODE_SPAWN_INTERVAL_MIN (NODE_SPAWN_INTERVAL_START - s * 10) \<and>
   (gameRunning w \<and> \<not> gameOver w \<longrightarrow>
      nodeSpawnInterval (scheduleNextSpawn w) =
        Some (max NODE_SPAWN_INTERVAL_MIN (NODE_SPAWN_INTERVAL_START - score w * 10))) \<and>
   (s \<le> t \<longrightarrow> currentInterval t \<le> currentInterval s) \<and>
   NODE_SPAWN_INTERVAL_MIN \<le> currentInterval s"
  by (auto simp: currentInterval_def scheduleNextSpawn_def)

theorem spawn_delay_ramp_witness:
  "gameRunning (initial_world\<lparr>gameRunning := True, score := 100\<rparr>) \<and>
   \<not> gameOver (initial_world\<lparr>gameRunning := True, score := 100\<rparr>) \<and>
   nodeSpawnInterval (scheduleNextSpawn (initial_world\<lparr>gameRunning := True, score := 100\<rparr>)) =
     Some 2000 \<and>
   (100::int) \<le> 250 \<and> currentInterval 100 = 2000 \<and> currentInterval 250 = 800 \<and>
   currentInterval 250 \<le> currentInterval 100 \<and>
   NODE_SPAWN_INTERVAL_MIN \<le> currentInterval 100"
proof -
  have r: "gameRunning (initial_world\<lparr>gameRunning := True, score := 100\<rparr>) \<and>
           \<not> gameOver (initial_world\<lparr>gameRunning := True, score := 100\<rparr>)"
    by (simp add: initial_world_def)
  have le: "(100::int) \<le> 250" by simp
  have sc: "score (initial_world\<lparr>gameRunning := True, score := 100\<rparr>) = 100" by simp
  have v: "currentInterval 250 = 800"
    by (simp add: currentInterval_def NODE_SPAWN_INTERVAL_MIN_def NODE_SPAWN_INTERVAL_START_def)
  show ?thesis
    using r le sc v
      spawn_delay_ramp[of 100 "initial_world\<lparr>gameRunning := True, score := 100\<rparr>" 250]
    by (simp add: NODE_SPAWN_INTERVAL_MIN_def NODE_SPAWN_INTERVAL_START_def)
qed

section \<open>Health\<close>

text \<open>
  Claim C1. From a freshly started game, after every sequence of simulation events (ticks
  with their drain and expiries, score ticks, spawns, interactions, and starts of a new
  game) the health is in \<open>[0, MAX_HEALTH]\<close>: each event is handled to completion, and the
  state after each prefix of the sequence has its health in the interval. So has every
  snapshot logged as sent since the start; a handler that ends with the error of
  \<^verbatim>\<open>broadcastData\<close> has made its assignments to the health before, and the later events go
  on from the state it left.
\<close>

theorem health_within_bounds:
  "\<forall>k. 0 \<le> pulseHealth (run (take k evs) (after (startGameHost w))) \<and>
       pulseHealth (run (take k evs) (after (startGameHost w))) \<le> MAX_HEALTH \<and>
       (\<forall>x \<in> set (sent (run (take k evs) (after (startGameHost w)))).
          x \<in> set (sent w) \<or> healthy_message (snd x))"
proof
  fix k
  have ok: "0 \<le> pulseHealth (after (startGameHost w)) \<and>
      pulseHealth (after (startGameHost w)) \<le> MAX_HEALTH"
    by (simp add: MAX_HEALTH_def)
  then have state: "0 \<le> pulseHealth (run (take k evs) (after (startGameHost w))) \<and>
       pulseHealth (run (take k evs) (after (startGameHost w))) \<le> MAX_HEALTH"
    by (rule run_health)
  have log: "sent (run (take k evs) (after (startGameHost w))) = sent w"
    by (simp add: run_sent)
  show "0 \<le> pulseHealth (run (take k evs) (after (startGameHost w))) \<and>
       pulseHealth (run (take k evs) (after (startGameHost w))) \<le> MAX_HEALTH \<and>
       (\<forall>x \<in> set (sent (run (take k evs) (after (startGameHost w)))).
          x \<in> set (sent w) \<or> healthy_message (snd x))"
    using state by (simp add: log)
qed

theorem health_within_bounds_witness:
  "pulseHealth (run (take 2 [SpawnTimeout (1 / 2) (1 / 2), GameLoopTick,
            NodeClick 0 ''peerA'', StartGame]) (after (startGameHost host_world))) = 999 / 10 \<and>
   0 \<le> pulseHealth (run (take 2 [SpawnTimeout (1 / 2) (1 / 2), GameLoopTick,
            NodeClick 0 ''peerA'', StartGame]) (after (startGameHost host_world))) \<and>
   pulseHealth (run (take 2 [SpawnTimeout (1 / 2) (1 / 2), GameLoopTick,
            NodeClick 0 ''peerA'', StartGame]) (after (startGameHost host_world))) \<le> MAX_HEALTH \<and>
   pulseHealth (run (take 3 [SpawnTimeout (1 / 2) (1 / 2), GameLoopTick,
            NodeClick 0 ''peerA'', StartGame]) (after (startGameHost host_world))) = 100 \<and>
   pulseHealth (run (take 3 [SpawnTimeout (1 / 2) (1 / 2), GameLoopTick,
            NodeClick 0 ''peerA'', StartGame]) (after (startGameHost host_world))) \<le> MAX_HEALTH"
proof -
  define evs where "evs = [SpawnTimeout (1 / 2) (1 / 2), GameLoopTick,
            NodeClick 0 ''peerA'', StartGame]"
  have a: "pulseHealth (run (take 2 evs) (after (startGameHost host_world))) = 999 / 10"
    unfolding evs_def by code_simp
  have b: "pulseHealth (run (take 3 evs) (after (startGameHost host_world))) = 100"
    unfolding evs_def by code_simp
  note i2 = health_within_bounds[of evs host_world, THEN spec, of 2]
  note i3 = health_within_bounds[of evs host_world, THEN spec, of 3]
  have t2: "0 \<le> pulseHealth (run (take 2 evs) (after (startGameHost host_world)))"
    "pulseHealth (run (take 2 evs) (after (startGameHost host_world))) \<le> MAX_HEALTH"
    using i2 by blast+
  have t3: "pulseHealth (run (take 3 evs) (after (startGameHost host_world))) \<le> MAX_HEALTH"
    using i3 by blast
  show ?thesis using a b t2 t3 unfolding evs_def by blast
qed

section \<open>Game over\<close>

text \<open>
  Claim C4. When a tick of the running game on the host leaves the health at 0, the game is
  over and no longer running, the three timers are cleared, and no later tick, score tick,
  spawn or interaction changes the state: only the start of a new game does. The
  \<^verbatim>\<open>gameOver\<close> message is not sent: \<^verbatim>\<open>broadcastGameOver\<close> calls \<^verbatim>\<open>broadcastData\<close>, which raises
  \<^verbatim>\<open>ReferenceError\<close> before any send, so the tick ends with that error and the log of sends is
  as before.
\<close>

theorem game_over_at_zero_health:
  "\<lbrakk>isHost w; gameRunning w; \<not> gameOver w; pulseHealth (after (gameLoopTick w)) \<le> 0\<rbrakk> \<Longrightarrow>
   gameOver (after (gameLoopTick w)) \<and> \<not> gameRunning (after (gameLoopTick w)) \<and>
   \<not> gameLoopInterval (after (gameLoopTick w)) \<and> \<not> scoreInterval (after (gameLoopTick w)) \<and>
   nodeSpawnInterval (after (gameLoopTick w)) = None \<and>
   score (after (gameLoopTick w)) = score w \<and>
   raises (gameLoopTick w) = Some (ReferenceError ''get'') \<and>
   sent (after (gameLoopTick w)) = sent w \<and>
   (\<forall>evs. StartGame \<notin> set evs \<longrightarrow> run evs (after (gameLoopTick w)) = after (gameLoopTick w))"
proof -
  assume host: "isHost w" and run: "gameRunning w" "\<not> gameOver w"
    and zero: "pulseHealth (after (gameLoopTick w)) \<le> 0"
  let ?w1 = "stopGameTimers ((ticked w)\<lparr>gameOver := True, gameRunning := False\<rparr>)"
  have z: "pulseHealth (ticked w) \<le> 0" using zero run by (simp add: gameLoopTick_health)
  then have tick: "gameLoopTick w = broadcastGameOver ?w1"
    using run by (simp add: gameLoopTick_running)
  have h1: "isHost ?w1" using host by (simp add: stopGameTimers_def ticked_def)
  have out: "gameLoopTick w = Inl (ReferenceError ''get'', ?w1)"
    using h1 by (simp add: tick broadcastGameOver_outcome)
  have over: "gameOver (after (gameLoopTick w))"
    by (simp add: out stopGameTimers_def)
  have rest: "\<not> gameRunning (after (gameLoopTick w)) \<and>
      \<not> gameLoopInterval (after (gameLoopTick w)) \<and> \<not> scoreInterval (after (gameLoopTick w)) \<and>
      nodeSpawnInterval (after (gameLoopTick w)) = None \<and>
      score (after (gameLoopTick w)) = score w \<and>
      sent (after (gameLoopTick w)) = sent w"
    by (simp add: out stopGameTimers_def ticked_def)
  have err: "raises (gameLoopTick w) = Some (ReferenceError ''get'')"
    by (simp add: out)
  have stays: "run evs (after (gameLoopTick w)) = after (gameLoopTick w)"
    if "StartGame \<notin> set evs" for evs
    using over that by (rule run_when_over)
  show ?thesis using over rest err stays by blast
qed

theorem game_over_at_zero_health_witness:
  "isHost dying_host \<and> gameRunning dying_host \<and> \<not> gameOver dying_host \<and>
   pulseHealth (after (gameLoopTick dying_host)) \<le> 0 \<and>
   StartGame \<notin> set [GameLoopTick, ScoreTick, SpawnTimeout 0 0, NodeClick 3 ''peerA''] \<and>
   gameOver (after (gameLoopTick dying_host)) \<and>
   \<not> gameRunning (after (gameLoopTick dying_host)) \<and>
   \<not> gameLoopInterval (after (gameLoopTick dying_host)) \<and>
   raises (gameLoopTick dying_host) = Some (ReferenceError ''get'') \<and>
   sent (after (gameLoopTick dying_host)) = [] \<and>
   run [GameLoopTick, ScoreTick, SpawnTimeout 0 0, NodeClick 3 ''peerA'']
     (after (gameLoopTick dying_host)) = after (gameLoopTick dying_host)"
proof -
  have h: "isHost dying_host" "gameRunning dying_host" "\<not> gameOver dying_host"
    by (simp_all add: dying_host_def running_host_def host_world_def initial_world_def)
  have z: "pulseHealth (after (gameLoopTick dying_host)) \<le> 0" by code_simp
  have s: "sent dying_host = []"
    by (simp add: dying_host_def running_host_def host_world_def initial_world_def)
  have e: "StartGame \<notin> set [GameLoopTick, ScoreTick, SpawnTimeout 0 0, NodeClick 3 ''peerA'']"
    by simp
  note inst = game_over_at_zero_health[OF h z]
  have t1: "gameOver (after (gameLoopTick dying_host))"
    "\<not> gameRunning (after (gameLoopTick dying_host))"
    "\<not> gameLoopInterval (after (gameLoopTick dying_host))"
    "raises (gameLoopTick dying_host) = Some (ReferenceError ''get'')"
    using inst by blast+
  have "sent (after (gameLoopTick dying_host)) = sent dying_host" using inst by blast
  then have t2: "sent (after (gameLoopTick dying_host)) = []" by (simp add: s)
  have t3: "run [GameLoopTick, ScoreTick, SpawnTimeout 0 0, NodeClick 3 ''peerA'']
      (after (gameLoopTick dying_host)) = after (gameLoopTick dying_host)"
    using inst e by blast
  show ?thesis using h z e t1 t2 t3 by blast
qed

section \<open>Interaction\<close>

text \<open>
  Claim C5. In a game started on the host, when the host handles an interaction for a
  node of the sequence while running, the sequence loses exactly that node (the others
  stay, in order), the health rises by \<open>HEALTH_GAIN_PER_CLICK\<close> up to \<open>MAX_HEALTH\<close> and the
  score stays. The snapshot is not sent: \<^verbatim>\<open>broadcastGameState\<close> calls \<^verbatim>\<open>broadcastData\<close>, which
  raises \<^verbatim>\<open>ReferenceError\<close> before any send, so the call ends with that error and the log of
  sends is as before.
\<close>

theorem click_on_present_node:
  "\<lbrakk>w = run evs (after (startGameHost w0)); isHost w; gameRunning w; \<not> gameOver w;
    n \<in> set (nodes w)\<rbrakk> \<Longrightarrow>
   nodes (after (handleNodeClick (node_id n) p w)) = remove1 n (nodes w) \<and>
   pulseHealth (after (handleNodeClick (node_id n) p w)) =
     min MAX_HEALTH (pulseHealth w + HEALTH_GAIN_PER_CLICK) \<and>
   score (after (handleNodeClick (node_id n) p w)) = score w \<and>
   raises (handleNodeClick (node_id n) p w) = Some (ReferenceError ''get'') \<and>
   sent (after (handleNodeClick (node_id n) p w)) = sent w"
proof -
  assume reach: "w = run evs (after (startGameHost w0))"
    and host: "isHost w" and run: "gameRunning w" "\<not> gameOver w"
    and n: "n \<in> set (nodes w)"
  let ?w1 = "w\<lparr>pulseHealth := min MAX_HEALTH (pulseHealth w + HEALTH_GAIN_PER_CLICK),
                nodes := filter (\<lambda>m. node_id m \<noteq> node_id n) (nodes w)\<rparr>"
  have "ids_fresh w" unfolding reach by (rule reachable_ids_fresh)
  then have rm: "filter (\<lambda>m. node_id m \<noteq> node_id n) (nodes w) = remove1 n (nodes w)"
    using n by (simp add: ids_fresh_def filter_other_ids)
  have "find (\<lambda>m. node_id m = node_id n) (nodes w) \<noteq> None"
    using n find_by_id[of "node_id n" "nodes w"] by blast
  then have click: "handleNodeClick (node_id n) p w = broadcastGameState ?w1"
    using host run by (simp add: handleNodeClick_def)
  have out: "handleNodeClick (node_id n) p w = Inl (ReferenceError ''get'', ?w1)"
    using host by (simp add: click broadcastGameState_outcome)
  show ?thesis by (simp add: out rm)
qed

theorem click_on_present_node_witness:
  "isHost (run [SpawnTimeout (1 / 2) (1 / 2)] (after (startGameHost host_world))) \<and>
   gameRunning (run [SpawnTimeout (1 / 2) (1 / 2)] (after (startGameHost host_world))) \<and>
   \<not> gameOver (run [SpawnTimeout (1 / 2) (1 / 2)] (after (startGameHost host_world))) \<and>
   sample_node 0 5000
     \<in> set (nodes (run [SpawnTimeout (1 / 2) (1 / 2)] (after (startGameHost host_world)))) \<and>
   nodes (after (handleNodeClick 0 ''peerA''
            (run [SpawnTimeout (1 / 2) (1 / 2)] (after (startGameHost host_world))))) = [] \<and>
   pulseHealth (after (handleNodeClick 0 ''peerA''
            (run [SpawnTimeout (1 / 2) (1 / 2)] (after (startGameHost host_world))))) = 100 \<and>
   raises (handleNodeClick 0 ''peerA''
            (run [SpawnTimeout (1 / 2) (1 / 2)] (after (startGameHost host_world)))) =
     Some (ReferenceError ''get'')"
proof -
  define w where "w = run [SpawnTimeout (1 / 2) (1 / 2)] (after (startGameHost host_world))"
  have h: "isHost w" "gameRunning w" "\<not> gameOver w" unfolding w_def by code_simp+
  have ns: "nodes w = [sample_node 0 5000]" unfolding w_def by code_simp
  then have n: "sample_node 0 5000 \<in> set (nodes w)" by simp
  have i: "node_id (sample_node 0 5000) = 0" by (simp add: sample_node_def)
  have hp: "pulseHealth w = 100" unfolding w_def by code_simp
  note inst = click_on_present_node[OF w_def h n, of "''peerA''"]
  have t1: "nodes (after (handleNodeClick 0 ''peerA'' w)) = []"
    using inst by (simp add: i ns)
  have t2: "pulseHealth (after (handleNodeClick 0 ''peerA'' w)) = 100"
    using inst by (simp add: i hp MAX_HEALTH_def HEALTH_GAIN_PER_CLICK_def)
  have t3: "raises (handleNodeClick 0 ''peerA'' w) = Some (ReferenceError ''get'')"
    using inst by (simp add: i)
  show ?thesis using h n t1 t2 t3 unfolding w_def by blast
qed

text \<open>
  Claim C6. An interaction for an identifier that is not in the sequence, or one handled
  while the game is not running or is over (or by a peer that is not the host), returns and
  leaves the whole state as it is: health, score and nodes, and also the log of sends, so
  that no peer is sent anything. The same holds when the interaction comes in as a
  \<^verbatim>\<open>playerAction\<close> message.
\<close>

theorem click_on_absent_node:
  "\<not> isHost w \<or> \<not> gameRunning w \<or> gameOver w \<or> nodeId \<notin> node_id ` set (nodes w) \<Longrightarrow>
   handleNodeClick nodeId p w = Inr w \<and>
   handleGameData (PlayerAction ''clickNode'' nodeId) p w = Inr w"
  by (auto simp: handleNodeClick_def find_None_iff)

theorem click_on_absent_node_witness:
  "gameRunning running_host \<and> 5 \<notin> node_id ` set (nodes running_host) \<and>
   handleNodeClick 5 ''peerA'' running_host = Inr running_host \<and>
   handleGameData (PlayerAction ''clickNode'' 5) ''peerA'' running_host = Inr running_host \<and>
   gameOver (after (gameLoopTick dying_host)) \<and>
   handleNodeClick 3 ''peerA'' (after (gameLoopTick dying_host)) =
     Inr (after (gameLoopTick dying_host))"
proof -
  have r: "gameRunning running_host" by (simp add: running_host_def)
  have a: "5 \<notin> node_id ` set (nodes running_host)"
    by (simp add: running_host_def sample_node_def)
  have o: "gameOver (after (gameLoopTick dying_host))" by code_simp
  have t1: "handleNodeClick 5 ''peerA'' running_host = Inr running_host \<and>
      handleGameData (PlayerAction ''clickNode'' 5) ''peerA'' running_host = Inr running_host"
    using a click_on_absent_node[of running_host 5 "''peerA''"] by blast
  have t2: "handleNodeClick 3 ''peerA'' (after (gameLoopTick dying_host)) =
      Inr (after (gameLoopTick dying_host))"
    using o click_on_absent_node[of "after (gameLoopTick dying_host)" 3 "''peerA''"] by blast
  show ?thesis using r a o t1 t2 by blast
qed

section \<open>Expiry\<close>

text \<open>
  Claim C7. In a game started on the host, a tick of the running game lowers the timer of
  every node by 100 and removes the nodes whose timer is then at most 0; the health is
  drained and then lowered by \<open>HEALTH_LOSS_PER_MISS\<close>, clamped at 0, once for each removed
  node. The identifier of a removed node does not come back into the sequence in that game,
  so the node is removed neither by a later interaction nor by a later expiry.
\<close>

theorem expiry_on_tick:
  "\<lbrakk>w = run evs0 (after (startGameHost w0)); gameRunning w; \<not> gameOver w\<rbrakk> \<Longrightarrow>
   nodes (after (gameLoopTick w)) =
     map (\<lambda>n. n\<lparr>timer := timer n - 100\<rparr>) (filter (\<lambda>n. \<not> expires n) (nodes w)) \<and>
   pulseHealth (after (gameLoopTick w)) =
     (miss_penalty ^^ length (filter expires (nodes w)))
       (max 0 (pulseHealth w - HEALTH_DRAIN_RATE / (1000 / 100))) \<and>
   (\<forall>n \<in> set (nodes w). expires n \<longrightarrow>
      (\<forall>evs. StartGame \<notin> set evs \<longrightarrow>
         node_id n \<notin> node_id ` set (nodes (run evs (after (gameLoopTick w))))))"
proof -
  assume reach: "w = run evs0 (after (startGameHost w0))"
    and run: "gameRunning w" "\<not> gameOver w"
  have fresh: "ids_fresh w" unfolding reach by (rule reachable_ids_fresh)
  have ns: "nodes (after (gameLoopTick w)) = nodes (ticked w)"
    using run by (rule gameLoopTick_nodes)
  have hp: "pulseHealth (after (gameLoopTick w)) = pulseHealth (ticked w)"
    using run by (rule gameLoopTick_health)
  have gone: "node_id n \<notin> node_id ` set (nodes (run evs (after (gameLoopTick w))))"
    if "n \<in> set (nodes w)" "expires n" "StartGame \<notin> set evs" for n evs
  proof -
    have "retired (node_id n) (ticked w)" using fresh that(1,2) by (rule expired_node_retired)
    then have "retired (node_id n) (after (gameLoopTick w))"
      by (simp add: retired_def ns gameLoopTick_nextNodeId ticked_def)
    then have "retired (node_id n) (run evs (after (gameLoopTick w)))"
      using that(3) by (rule run_retired)
    then show ?thesis by (simp add: retired_def)
  qed
  show ?thesis using ns hp gone by (simp add: ticked_def)
qed

theorem expiry_on_tick_witness:
  "gameRunning (run (SpawnTimeout (1 / 2) (1 / 2) # ScoreTick # replicate 49 GameLoopTick)
                  (after (startGameHost host_world))) \<and>
   \<not> gameOver (run (SpawnTimeout (1 / 2) (1 / 2) # ScoreTick # replicate 49 GameLoopTick)
                  (after (startGameHost host_world))) \<and>
   nodes (run (SpawnTimeout (1 / 2) (1 / 2) # ScoreTick # replicate 49 GameLoopTick)
                  (after (startGameHost host_world))) = [sample_node 0 100] \<and>
   expires (sample_node 0 100) \<and>
   StartGame \<notin> set [NodeClick 0 ''peerA'', GameLoopTick] \<and>
   nodes (after (gameLoopTick
            (run (SpawnTimeout (1 / 2) (1 / 2) # ScoreTick # replicate 49 GameLoopTick)
                  (after (startGameHost host_world))))) = [] \<and>
   pulseHealth (after (gameLoopTick
            (run (SpawnTimeout (1 / 2) (1 / 2) # ScoreTick # replicate 49 GameLoopTick)
                  (after (startGameHost host_world))))) = 80 \<and>
   0 \<notin> node_id ` set (nodes (run [NodeClick 0 ''peerA'', GameLoopTick]
          (after (gameLoopTick
            (run (SpawnTimeout (1 / 2) (1 / 2) # ScoreTick # replicate 49 GameLoopTick)
                  (after (startGameHost host_world)))))))"
proof -
  define w2 where
    "w2 = run [SpawnTimeout (1 / 2) (1 / 2), ScoreTick] (after (startGameHost host_world))"
  define w where "w = run (SpawnTimeout (1 / 2) (1 / 2) # ScoreTick # replicate 49 GameLoopTick)
                  (after (startGameHost host_world))"
  have w2: "gameRunning w2" "\<not> gameOver w2" "score w2 = 1"
    "nodes w2 = [sample_node 0 5000]" "pulseHealth w2 = 100"
    unfolding w2_def by code_simp+
  have split: "w = run (replicate 49 GameLoopTick) w2" by (simp add: w_def w2_def)
  have q4: "\<forall>n \<in> set (nodes w2). 100 * int 49 < timer n"
    by (simp add: w2 sample_node_def)
  have q3: "score w2 mod 5 \<noteq> 0" by (simp add: w2)
  have q5: "of_nat 49 / 10 < pulseHealth w2" by (simp add: w2)
  have quiet: "w = w2\<lparr>pulseHealth := pulseHealth w2 - of_nat 49 / 10,
      nodes := map (\<lambda>n. n\<lparr>timer := timer n - 100 * int 49\<rparr>) (nodes w2)\<rparr>"
    unfolding split using w2(1) w2(2) q3 q4 q5 by (rule quiet_ticks)
  have r: "gameRunning w" "\<not> gameOver w"
    using w2 by (simp_all add: quiet)
  have ns: "nodes w = [sample_node 0 100]"
    by (simp add: quiet w2 sample_node_def)
  have hp: "pulseHealth w = 951 / 10"
    by (simp add: quiet w2)
  have ex: "expires (sample_node 0 100)" by (simp add: expires_def sample_node_def)
  have i: "node_id (sample_node 0 100) = 0" by (simp add: sample_node_def)
  have e: "StartGame \<notin> set [NodeClick 0 ''peerA'', GameLoopTick]" by simp
  have pen: "miss_penalty (max 0 (951 / 10 - HEALTH_DRAIN_RATE / (1000 / 100))) = 80"
    by (simp add: miss_penalty_def HEALTH_DRAIN_RATE_def HEALTH_LOSS_PER_MISS_def)
  note inst = expiry_on_tick[OF w_def r]
  have t1: "nodes (after (gameLoopTick w)) = []"
    using inst ex by (simp add: ns)
  have "pulseHealth (after (gameLoopTick w)) =
      miss_penalty (max 0 (pulseHealth w - HEALTH_DRAIN_RATE / (1000 / 100)))"
    using inst ex by (simp add: ns)
  also have "\<dots> = 80" unfolding hp by (rule pen)
  finally have t2: "pulseHealth (after (gameLoopTick w)) = 80" .
  have m: "sample_node 0 100 \<in> set (nodes w)" by (simp add: ns)
  have "\<forall>n \<in> set (nodes w). expires n \<longrightarrow>
      (\<forall>evs. StartGame \<notin> set evs \<longrightarrow>
         node_id n \<notin> node_id ` set (nodes (run evs (after (gameLoopTick w)))))"
    using inst by blast
  then have "node_id (sample_node 0 100)
      \<notin> node_id ` set (nodes (run [NodeClick 0 ''peerA'', GameLoopTick]
          (after (gameLoopTick w))))"
    using m ex e by blast
  then have t3: "0 \<notin> node_id ` set (nodes (run [NodeClick 0 ''peerA'', GameLoopTick]
      (after (gameLoopTick w))))"
    unfolding i .
  show ?thesis using r ns ex e t1 t2 t3 unfolding w_def by blast
qed

section \<open>Messages on a client\<close>

text \<open>
  Claim C10. A client that receives \<^verbatim>\<open>gameOver\<close> sets \<^verbatim>\<open>gameOver\<close>, clears \<^verbatim>\<open>gameRunning\<close> and
  its timers, and takes over \<^verbatim>\<open>finalScore\<close> as its score only when \<^verbatim>\<open>finalScore\<close> is truthy:
  with \<^verbatim>\<open>finalScore\<close> 0 the score it mirrors stays. The handler returns.
\<close>

theorem client_game_over_score:
  "\<not> isHost w \<Longrightarrow>
   gameOver (after (handleGameData (GameOver finalScore) senderPeerId w)) \<and>
   \<not> gameRunning (after (handleGameData (GameOver finalScore) senderPeerId w)) \<and>
   \<not> gameLoopInterval (after (handleGameData (GameOver finalScore) senderPeerId w)) \<and>
   \<not> scoreInterval (after (handleGameData (GameOver finalScore) senderPeerId w)) \<and>
   nodeSpawnInterval (after (handleGameData (GameOver finalScore) senderPeerId w)) = None \<and>
   score (after (handleGameData (GameOver finalScore) senderPeerId w)) =
     (if finalScore = 0 then score w else finalScore) \<and>
   raises (handleGameData (GameOver finalScore) senderPeerId w) = None"
  by (simp add: stopGameTimers_def)

theorem client_game_over_score_witness:
  "\<not> isHost client_of_hostA \<and> score client_of_hostA = 12 \<and>
   gameOver (after (handleGameData (GameOver 0) ''hostA'' client_of_hostA)) \<and>
   \<not> gameRunning (after (handleGameData (GameOver 0) ''hostA'' client_of_hostA)) \<and>
   score (after (handleGameData (GameOver 0) ''hostA'' client_of_hostA)) = 12 \<and>
   score (after (handleGameData (GameOver 40) ''hostA'' client_of_hostA)) = 40"
proof -
  have c: "\<not> isHost client_of_hostA" by (simp add: client_of_hostA_def initial_world_def)
  have s: "score client_of_hostA = 12" by (simp add: client_of_hostA_def)
  show ?thesis
    using c s client_game_over_score[OF c, of 0 "''hostA''"]
      client_game_over_score[OF c, of 40 "''hostA''"]
    by simp
qed

text \<open>
  The \<^verbatim>\<open>gameStateUpdate\<close> branch of the handler compares the sender with the peer of the
  host connection: a snapshot from any other peer, or one received while there is no host
  connection, leaves the client's state as it is.
\<close>

lemma stale_snapshot_dropped:
  "\<not> isHost w \<Longrightarrow> hostConnection w \<noteq> Some senderPeerId \<Longrightarrow>
   handleGameData (GameStateUpdate st) senderPeerId w = Inr w"
  by auto

text \<open>
  Claim C3. A client drops a \<^verbatim>\<open>gameStateUpdate\<close> whose sender is not the peer of its host
  connection, but the \<^verbatim>\<open>gameOver\<close> branch of the handler does not look at the sender: a
  \<^verbatim>\<open>gameOver\<close> from any peer ends the client's game and, with a truthy \<^verbatim>\<open>finalScore\<close>,
  overwrites its score.
\<close>

theorem stale_game_over_not_dropped:
  "\<lbrakk>\<not> isHost w; hostConnection w \<noteq> Some senderPeerId; finalScore \<noteq> 0\<rbrakk> \<Longrightarrow>
   gameOver (after (handleGameData (GameOver finalScore) senderPeerId w)) \<and>
   \<not> gameRunning (after (handleGameData (GameOver finalScore) senderPeerId w)) \<and>
   score (after (handleGameData (GameOver finalScore) senderPeerId w)) = finalScore"
  by (simp add: stopGameTimers_def)

theorem stale_game_over_not_dropped_witness:
  "\<not> isHost client_of_hostA \<and> hostConnection client_of_hostA = Some ''hostA'' \<and>
   hostConnection client_of_hostA \<noteq> Some ''stranger'' \<and> (99::int) \<noteq> 0 \<and>
   gameRunning client_of_hostA \<and> \<not> gameOver client_of_hostA \<and> score client_of_hostA = 12 \<and>
   after (handleGameData (GameOver 99) ''stranger'' client_of_hostA) \<noteq> client_of_hostA \<and>
   gameOver (after (handleGameData (GameOver 99) ''stranger'' client_of_hostA)) \<and>
   \<not> gameRunning (after (handleGameData (GameOver 99) ''stranger'' client_of_hostA)) \<and>
   score (after (handleGameData (GameOver 99) ''stranger'' client_of_hostA)) = 99"
proof -
  have c: "\<not> isHost client_of_hostA" by (simp add: client_of_hostA_def initial_world_def)
  have hc: "hostConnection client_of_hostA = Some ''hostA''"
    by (simp add: client_of_hostA_def)
  then have s: "hostConnection client_of_hostA \<noteq> Some ''stranger''" by simp
  have f: "(99::int) \<noteq> 0" by simp
  have before: "gameRunning client_of_hostA" "\<not> gameOver client_of_hostA"
    "score client_of_hostA = 12"
    by (simp_all add: client_of_hostA_def initial_world_def)
  note inst = stale_game_over_not_dropped[OF c s f]
  have after: "gameOver (after (handleGameData (GameOver 99) ''stranger'' client_of_hostA))"
    "\<not> gameRunning (after (handleGameData (GameOver 99) ''stranger'' client_of_hostA))"
    "score (after (handleGameData (GameOver 99) ''stranger'' client_of_hostA)) = 99"
    using inst by blast+
  have "after (handleGameData (GameOver 99) ''stranger'' client_of_hostA) \<noteq> client_of_hostA"
    using after(1) before(2) by metis
  then show ?thesis using c hc s f before after by blast
qed

section \<open>Starting while running\<close>

text \<open>
  Claim C2. \<^verbatim>\<open>startGameHost\<close> logs that the game cannot be started when it is already running,
  but its only \<^verbatim>\<open>return\<close> is guarded by \<^verbatim>\<open>!Object.keys($connections).length === 0\<close>, which is
  false, so the call goes on: in a running game it resets health, score and nodes and
  re-arms the timers. It then calls \<^verbatim>\<open>broadcastGameState\<close>; on the host that call raises
  \<^verbatim>\<open>ReferenceError\<close> in \<^verbatim>\<open>broadcastData\<close>, after the reset and before any send.
\<close>

theorem start_while_running_restarts:
  "gameRunning w \<Longrightarrow>
   pulseHealth (after (startGameHost w)) = MAX_HEALTH \<and>
   score (after (startGameHost w)) = 0 \<and>
   nodes (after (startGameHost w)) = [] \<and>
   nextNodeId (after (startGameHost w)) = 0 \<and>
   gameLoopInterval (after (startGameHost w)) \<and> scoreInterval (after (startGameHost w)) \<and>
   nodeSpawnInterval (after (startGameHost w)) = Some NODE_SPAWN_INTERVAL_START \<and>
   sent (after (startGameHost w)) = sent w \<and>
   (isHost w \<longrightarrow> raises (startGameHost w) = Some (ReferenceError ''get''))"
proof -
  let ?w1 = "startGameTimers
          (w\<lparr>gameOver := False, pulseHealth := MAX_HEALTH, score := 0, nodes := [],
             nextNodeId := 0, gameRunning := True\<rparr>)"
  have timers: "gameLoopInterval (after (startGameHost w)) \<and>
      scoreInterval (after (startGameHost w)) \<and>
      nodeSpawnInterval (after (startGameHost w)) = Some NODE_SPAWN_INTERVAL_START"
    by (simp add: after_startGameHost startGameTimers_def scheduleNextSpawn_def
        stopGameTimers_def currentInterval_def NODE_SPAWN_INTERVAL_START_def
        NODE_SPAWN_INTERVAL_MIN_def)
  have err: "raises (startGameHost w) = Some (ReferenceError ''get'')" if "isHost w"
  proof -
    have "isHost ?w1"
      using that by (simp add: startGameTimers_def scheduleNextSpawn_def stopGameTimers_def)
    then show ?thesis by (simp add: startGameHost_unfold broadcastGameState_outcome)
  qed
  show ?thesis using timers err by simp
qed

theorem start_while_running_restarts_witness:
  "isHost running_host \<and> gameRunning running_host \<and> \<not> gameOver running_host \<and>
   pulseHealth running_host = 42 \<and> score running_host = 7 \<and>
   nodes running_host = [sample_node 3 2500] \<and> nextNodeId running_host = 4 \<and>
   nodeSpawnInterval running_host = Some 2930 \<and> sent running_host = [] \<and>
   after (startGameHost running_host) \<noteq> running_host \<and>
   pulseHealth (after (startGameHost running_host)) = 100 \<and>
   score (after (startGameHost running_host)) = 0 \<and>
   nodes (after (startGameHost running_host)) = [] \<and>
   nextNodeId (after (startGameHost running_host)) = 0 \<and>
   nodeSpawnInterval (after (startGameHost running_host)) = Some 3000 \<and>
   sent (after (startGameHost running_host)) = [] \<and>
   raises (startGameHost running_host) = Some (ReferenceError ''get'')"
proof -
  have r: "gameRunning running_host"
    by (simp add: running_host_def)
  have before: "isHost running_host" "\<not> gameOver running_host"
    "pulseHealth running_host = 42" "score running_host = 7"
    "nodes running_host = [sample_node 3 2500]" "nextNodeId running_host = 4"
    "nodeSpawnInterval running_host = Some 2930" "sent running_host = []"
    by (simp_all add: running_host_def host_world_def initial_world_def)
  note inst = start_while_running_restarts[OF r]
  have after: "pulseHealth (after (startGameHost running_host)) = 100"
    "score (after (startGameHost running_host)) = 0"
    "nodes (after (startGameHost running_host)) = []"
    "nextNodeId (after (startGameHost running_host)) = 0"
    "nodeSpawnInterval (after (startGameHost running_host)) = Some 3000"
    using inst by (simp_all add: MAX_HEALTH_def NODE_SPAWN_INTERVAL_START_def)
  have log: "sent (after (startGameHost running_host)) = []"
    using inst before(8) by simp
  have err: "raises (startGameHost running_host) = Some (ReferenceError ''get'')"
    using inst before(1) by blast
  have "score (after (startGameHost running_host)) \<noteq> score running_host"
    using after(2) before(4) by simp
  then have "after (startGameHost running_host) \<noteq> running_host" by metis
  then show ?thesis using r before after log err by blast
qed

end
